theory Spec2Isabelle
  imports Main "HOL-Library.Sublist"
begin

section \<open>Go values used by the three packages\<close>

text \<open>
  A Go string is a sequence of bytes, here a \<open>string\<close> (a list of 8-bit characters).
  A Go \<open>int\<close> is an \<open>int\<close>: the packages store and compare ports and never compute with
  them; the one place where the 64-bit range matters is \<open>strconv.Atoi\<close>, where it is
  written out.
\<close>

subsection \<open>Errors\<close>

text \<open>
  The \<open>error\<close> values the packages build: \<open>fmt.Errorf\<close> with a \<open>%s\<close> verb (its argument printed
  as it is), \<open>fmt.Errorf\<close> with a \<open>%w\<close> verb (the wrapped error kept, its text appended) and
  the \<open>*strconv.NumError\<close> of a failed \<open>strconv.Atoi\<close>.
\<close>

datatype num_err = ErrSyntax | ErrRange

datatype go_error =
    NumError string string num_err
  | Errorf_s string string
  | Errorf_w string go_error

text \<open>
  \<open>err.Error()\<close>. The text of a \<open>NumError\<close> quotes the rejected input with
  \<open>strconv.Quote\<close>, which is library code and a parameter here.
\<close>

fun Error :: "(string \<Rightarrow> string) \<Rightarrow> go_error \<Rightarrow> string" where
  "Error quote (NumError fn num ErrSyntax) =
     ''strconv.'' @ fn @ '': parsing '' @ quote num @ '': invalid syntax''"
| "Error quote (NumError fn num ErrRange) =
     ''strconv.'' @ fn @ '': parsing '' @ quote num @ '': value out of range''"
| "Error quote (Errorf_s format arg) = format @ arg"
| "Error quote (Errorf_w format err) = format @ Error quote err"

text \<open>\<open>strings.Contains(s, substr)\<close>.\<close>

definition Contains :: "string \<Rightarrow> string \<Rightarrow> bool" where
  "Contains s substr = sublist substr s"

subsection \<open>\<open>strings.ToLower\<close>\<close>

text \<open>
  \<open>strings.ToLower\<close> scans the bytes; when all are below \<open>utf8.RuneSelf\<close> (0x80) it adds
  \<open>'a' - 'A'\<close> to every byte in \<open>'A'..'Z'\<close> (returning the string itself when there is
  none), and otherwise it returns \<open>strings.Map(unicode.ToLower, s)\<close>. The Unicode tables are
  not modelled: that second path is the parameter \<open>mapLower\<close>, and every theorem holds for
  every value of it. The closed examples below pass the identity for it (and for the
  \<open>quote\<close> of \<open>Error\<close>); their inputs are ASCII, where the parameter is not consulted
  (lemma \<open>ToLower_ascii\<close>).
\<close>

definition isASCII :: "string \<Rightarrow> bool" where
  "isASCII s = list_all (\<lambda>c. (of_char c :: nat) < 128) s"

definition isUpper :: "char \<Rightarrow> bool" where
  "isUpper c = ((65::nat) \<le> of_char c \<and> (of_char c :: nat) \<le> 90)"

definition hasUpper :: "string \<Rightarrow> bool" where
  "hasUpper s = list_ex isUpper s"

definition lower_byte :: "char \<Rightarrow> char" where
  "lower_byte c = (if isUpper c then char_of ((of_char c :: nat) + 32) else c)"

definition ToLower :: "(string \<Rightarrow> string) \<Rightarrow> string \<Rightarrow> string" where
  "ToLower mapLower s =
     (if isASCII s then (if \<not> hasUpper s then s else map lower_byte s)
      else mapLower s)"

section \<open>Package logger\<close>

text \<open>
  \<open>slog.Level\<close> is an integer type; the four constants the package uses are
  \<open>LevelDebug = -4\<close>, \<open>LevelInfo = 0\<close>, \<open>LevelWarn = 4\<close> and \<open>LevelError = 8\<close>.
\<close>

type_synonym Level = int

definition LevelDebug :: Level where "LevelDebug = - 4"
definition LevelInfo :: Level where "LevelInfo = 0"
definition LevelWarn :: Level where "LevelWarn = 4"
definition LevelError :: Level where "LevelError = 8"

text \<open>
  A \<open>*slog.Logger\<close>: the address \<open>slog.New\<close> allocated it at, and the threshold of its JSON
  handler (\<open>HandlerOptions.Level\<close>). The handler writes to standard output; what it writes
  is not modelled.
\<close>

record Logger =
  addr :: nat
  threshold :: Level

text \<open>
  The state of the process that \<open>logger.New\<close> touches: the default logger of package
  \<open>slog\<close> (set by \<open>slog.SetDefault\<close>) and the next free address.
\<close>

record Process =
  slog_default :: Logger
  next_addr :: nat

text \<open>
  \<open>logger.New\<close>. The parameter \<open>level\<close> is overwritten by its lower-case form before the
  switch, so the default branch formats the lower-case form.
\<close>

definition logger_New ::
  "(string \<Rightarrow> string) \<Rightarrow> string \<Rightarrow> Process \<Rightarrow> (go_error + Logger) \<times> Process" where
  "logger_New mapLower level0 p =
     (let level = ToLower mapLower level0;
          sw = (if level = ''debug'' then Inr LevelDebug
                else if level = ''info'' then Inr LevelInfo
                else if level = ''warn'' then Inr LevelWarn
                else if level = ''error'' then Inr LevelError
                else Inl (Errorf_s ''invalid log level: '' level))
      in case sw of
           Inl err \<Rightarrow> (Inl err, p)
         | Inr logLevel \<Rightarrow>
             (let logger = \<lparr>addr = next_addr p, threshold = logLevel\<rparr>
              in (Inr logger, p\<lparr>slog_default := logger, next_addr := Suc (next_addr p)\<rparr>)))"

text \<open>
  The level a name stands for, as the specification lists them: the four names
  \<open>debug\<close>, \<open>info\<close>, \<open>warn\<close> and \<open>error\<close>. It is the reference the code is compared with.
\<close>

definition named_level :: "string \<Rightarrow> Level option" where
  "named_level name =
     (if name = ''debug'' then Some LevelDebug
      else if name = ''info'' then Some LevelInfo
      else if name = ''warn'' then Some LevelWarn
      else if name = ''error'' then Some LevelError
      else None)"

text \<open>
  Several calls of \<open>logger.New\<close> in one process, one after the other: the results in the
  order of the calls, and the process after the last one.
\<close>

fun New_each ::
  "(string \<Rightarrow> string) \<Rightarrow> string list \<Rightarrow> Process \<Rightarrow> (go_error + Logger) list \<times> Process" where
  "New_each mapLower [] p = ([], p)"
| "New_each mapLower (level # levels) p =
     (case logger_New mapLower level p of
        (r, p') \<Rightarrow> (case New_each mapLower levels p' of (rs, p'') \<Rightarrow> (r # rs, p'')))"

text \<open>The loggers among the results of such calls, in the order they were constructed.\<close>

fun constructed :: "(go_error + Logger) list \<Rightarrow> Logger list" where
  "constructed [] = []"
| "constructed (Inl err # rs) = constructed rs"
| "constructed (Inr lg # rs) = lg # constructed rs"

section \<open>Package config\<close>

text \<open>
  The environment of the process maps the names of the variables that are set to their
  values. \<open>os.Getenv\<close> returns the empty string for a variable that is not set, and
  \<open>cmp.Or\<close> returns the first of its arguments that is not the zero value.
\<close>

type_synonym environ = "string \<rightharpoonup> string"

definition Getenv :: "environ \<Rightarrow> string \<Rightarrow> string" where
  "Getenv env key = (case env key of None \<Rightarrow> [] | Some v \<Rightarrow> v)"

definition cmp_Or :: "string \<Rightarrow> string \<Rightarrow> string" where
  "cmp_Or a b = (if a \<noteq> [] then a else b)"

subsection \<open>\<open>strconv.Atoi\<close>\<close>

text \<open>
  \<open>strconv.Atoi(s)\<close> is \<open>strconv.ParseInt(s, 10, 0)\<close> with the function name of the error
  replaced (its fast path for short inputs returns the same results), for a 64-bit \<open>int\<close>.
  The loop of \<open>ParseUint\<close> reads the bytes from the left: a byte that is not a decimal digit
  is a syntax error, an accumulator that would leave the unsigned 64-bit range is a range
  error, whichever comes first.
\<close>

definition isDigit :: "char \<Rightarrow> bool" where
  "isDigit c = ((48::nat) \<le> of_char c \<and> (of_char c :: nat) \<le> 57)"

fun ParseUint_loop :: "nat \<Rightarrow> string \<Rightarrow> num_err + nat" where
  "ParseUint_loop n [] = Inr n"
| "ParseUint_loop n (c # cs) =
     (if \<not> isDigit c then Inl ErrSyntax
      else (let n1 = n * 10 + (of_char c - 48)
            in if n1 > 2 ^ 64 - 1 then Inl ErrRange else ParseUint_loop n1 cs))"

definition Atoi :: "string \<Rightarrow> go_error + int" where
  "Atoi s =
     (if s = [] then Inl (NumError ''Atoi'' s ErrSyntax)
      else
        (let neg = (hd s = CHR ''-'');
             s1 = (if hd s = CHR ''+'' \<or> hd s = CHR ''-'' then tl s else s)
         in if s1 = [] then Inl (NumError ''Atoi'' s ErrSyntax)
            else
              (case ParseUint_loop 0 s1 of
                 Inl e \<Rightarrow> Inl (NumError ''Atoi'' s e)
               | Inr un \<Rightarrow>
                   if \<not> neg \<and> un \<ge> 2 ^ 63 then Inl (NumError ''Atoi'' s ErrRange)
                   else if neg \<and> un > 2 ^ 63 then Inl (NumError ''Atoi'' s ErrRange)
                   else Inr (if neg then - int un else int un))))"

text \<open>
  \<open>strconv.Itoa\<close>, the decimal form of an \<open>int\<close> (the tests set \<open>APP_PORT\<close> with it): a minus
  sign for a negative number, then the digits of the absolute value, the most significant
  first.
\<close>

fun digits10 :: "nat \<Rightarrow> string" where
  "digits10 n =
     (if n < 10 then [char_of (48 + n)]
      else digits10 (n div 10) @ [char_of (48 + n mod 10)])"

definition Itoa :: "int \<Rightarrow> string" where
  "Itoa i = (if i < 0 then CHR ''-'' # digits10 (nat (- i)) else digits10 (nat i))"

subsection \<open>\<open>Config\<close>, its options and \<open>New\<close>\<close>

record Config =
  cfg_Port :: int
  cfg_LogLevel :: string
  cfg_Environment :: string

text \<open>
  An \<open>Option\<close> is a \<open>func(*Config) error\<close>: it may change the configuration it is given
  and may return an error (\<open>None\<close> is \<open>nil\<close>). It may read the environment.
\<close>

type_synonym ConfigOption = "environ \<Rightarrow> Config \<Rightarrow> go_error option \<times> Config"

definition WithDefaultPort :: "int \<Rightarrow> ConfigOption" where
  "WithDefaultPort port env c0 =
     (let c = c0\<lparr>cfg_Port := port\<rparr>;
          portFromEnvVariable = Getenv env ''APP_PORT''
      in if portFromEnvVariable \<noteq> [] then
           (case Atoi portFromEnvVariable of
              Inl err \<Rightarrow>
                (Some (Errorf_w ''invalid port in APP_PORT environment variable: '' err), c)
            | Inr parsedPort \<Rightarrow> (None, c\<lparr>cfg_Port := parsedPort\<rparr>))
         else (None, c))"

text \<open>
  The two options the tests of the package write for themselves (\<open>withTestLogLevel\<close> and
  \<open>withTestEnv\<close> in \<open>config_test.go\<close>): each sets one field and returns \<open>nil\<close>.
\<close>

definition withTestLogLevel :: "string \<Rightarrow> ConfigOption" where
  "withTestLogLevel level env c = (None, c\<lparr>cfg_LogLevel := level\<rparr>)"

definition withTestEnv :: "string \<Rightarrow> ConfigOption" where
  "withTestEnv e env c = (None, c\<lparr>cfg_Environment := e\<rparr>)"

text \<open>The loop of \<open>New\<close> over the options: the first error ends it, and no \<open>Config\<close> is returned.\<close>

fun config_apply :: "environ \<Rightarrow> ConfigOption list \<Rightarrow> Config \<Rightarrow> go_error + Config" where
  "config_apply env [] cfg = Inr cfg"
| "config_apply env (opt # opts) cfg =
     (case opt env cfg of
        (Some err, cfg') \<Rightarrow> Inl err
      | (None, cfg') \<Rightarrow> config_apply env opts cfg')"

definition config_New :: "environ \<Rightarrow> ConfigOption list \<Rightarrow> go_error + Config" where
  "config_New env opts =
     config_apply env opts
       \<lparr>cfg_Port = 0,
        cfg_LogLevel = cmp_Or (Getenv env ''APP_LOG_LEVEL'') ''info'',
        cfg_Environment = cmp_Or (Getenv env ''APP_ENV'') ''local''\<rparr>"

section \<open>Package service\<close>

text \<open>The field \<open>Log\<close> is a pointer: \<open>None\<close> is \<open>nil\<close>.\<close>

record Service =
  svc_Environment :: string
  svc_LogLevel :: string
  svc_Log :: "Logger option"
  svc_Name :: string
  svc_Port :: int
  svc_Version :: string

text \<open>
  An \<open>Option\<close> is a \<open>func(*Service)\<close>: it changes the service and, through \<open>logger.New\<close>,
  the process; it has no result, so it cannot report an error.
\<close>

type_synonym ServiceOption = "Service \<Rightarrow> Process \<Rightarrow> Service \<times> Process"

definition WithEnvironment :: "string \<Rightarrow> ServiceOption" where
  "WithEnvironment env s p = (s\<lparr>svc_Environment := env\<rparr>, p)"

definition WithLogLevel :: "(string \<Rightarrow> string) \<Rightarrow> string \<Rightarrow> ServiceOption" where
  "WithLogLevel mapLower level s0 p =
     (let s = s0\<lparr>svc_LogLevel := level\<rparr>
      in case svc_Log s of
           None \<Rightarrow> (s, p)
         | Some old \<Rightarrow>
             (case logger_New mapLower level p of
                (Inl err, p') \<Rightarrow> (s, p')
              | (Inr newLogger, p') \<Rightarrow> (s\<lparr>svc_Log := Some newLogger\<rparr>, p')))"

definition WithPort :: "int \<Rightarrow> ServiceOption" where
  "WithPort port c p = (c\<lparr>svc_Port := port\<rparr>, p)"

definition WithVersion :: "string \<Rightarrow> ServiceOption" where
  "WithVersion version s p = (s\<lparr>svc_Version := version\<rparr>, p)"

fun service_apply :: "ServiceOption list \<Rightarrow> Service \<Rightarrow> Process \<Rightarrow> Service \<times> Process" where
  "service_apply [] svc p = (svc, p)"
| "service_apply (opt # opts) svc p =
     (case opt svc p of (svc', p') \<Rightarrow> service_apply opts svc' p')"

definition NewWithName ::
  "(string \<Rightarrow> string) \<Rightarrow> string \<Rightarrow> ServiceOption list \<Rightarrow> Process
     \<Rightarrow> (go_error + Service) \<times> Process" where
  "NewWithName mapLower name opts p =
     (let svc = \<lparr>svc_Environment = [], svc_LogLevel = ''info'', svc_Log = None,
                 svc_Name = name, svc_Port = 8000, svc_Version = []\<rparr>
      in case logger_New mapLower (svc_LogLevel svc) p of
           (Inl err, p') \<Rightarrow> (Inl (Errorf_w ''error initializing logger: '' err), p')
         | (Inr lg, p') \<Rightarrow>
             (case service_apply opts (svc\<lparr>svc_Log := Some lg\<rparr>) p' of
                (svc', p'') \<Rightarrow> (Inr svc', p'')))"

text \<open>The options of the package itself, among all functions of the type.\<close>

definition package_options :: "(string \<Rightarrow> string) \<Rightarrow> ServiceOption set" where
  "package_options mapLower =
     range WithEnvironment \<union> range (WithLogLevel mapLower) \<union> range WithPort
       \<union> range WithVersion"

subsection \<open>The routes of \<open>Run\<close>\<close>

text \<open>
  \<open>Run\<close> registers four handlers on \<open>http.DefaultServeMux\<close> and serves it. Each handler
  writes its body and nothing else, so the status is 200. Of \<open>net/http\<close> the model keeps
  what decides which handler answers a path: \<open>HandleFunc\<close> panics (\<open>None\<close>) on an empty
  pattern and on a pattern that is registered already; the multiplexer answers a path with
  the handler registered for exactly that path and, when there is none, with the handler
  of the longest registered pattern that ends in a slash and is a prefix of the path (a
  pattern that ends in a slash names a subtree, so the pattern \<open>/\<close> matches every path no
  other pattern matches); when no pattern matches it answers \<open>http.NotFound\<close>. The paths
  are the cleaned ones the multiplexer looks up; its redirection of other paths, host
  names in patterns and the method are not modelled. What \<open>Run\<close> logs, and the listener
  it blocks on, are not modelled either.
\<close>

record Response =
  status :: nat
  body :: string

type_synonym Handler = "string \<Rightarrow> Response"

type_synonym ServeMux = "(string \<times> Handler) list"

definition HandleFunc :: "ServeMux \<Rightarrow> string \<Rightarrow> Handler \<Rightarrow> ServeMux option" where
  "HandleFunc mux pattern handler =
     (if pattern = [] \<or> map_of mux pattern \<noteq> None then None
      else Some (mux @ [(pattern, handler)]))"

definition NotFound :: Response where
  "NotFound = \<lparr>status = 404, body = ''404 page not found'' @ [CHR 0x0A]\<rparr>"

fun longest :: "(string \<times> Handler) \<Rightarrow> ServeMux \<Rightarrow> (string \<times> Handler)" where
  "longest best [] = best"
| "longest best (e # es) =
     longest (if length (fst best) < length (fst e) then e else best) es"

definition ServeMux_match :: "ServeMux \<Rightarrow> string \<Rightarrow> Handler option" where
  "ServeMux_match mux path =
     (case map_of mux path of
        Some h \<Rightarrow> Some h
      | None \<Rightarrow>
          (case filter (\<lambda>e. fst e \<noteq> [] \<and> last (fst e) = CHR ''/'' \<and> prefix (fst e) path) mux of
             [] \<Rightarrow> None
           | e # es \<Rightarrow> Some (snd (longest e es))))"

definition ServeHTTP :: "ServeMux \<Rightarrow> string \<Rightarrow> Response" where
  "ServeHTTP mux path =
     (case ServeMux_match mux path of None \<Rightarrow> NotFound | Some h \<Rightarrow> h path)"

text \<open>
  \<open>Run\<close>, up to the call of \<open>http.ListenAndServe\<close>: the multiplexer that is served. \<open>None\<close> is
  a panic: the first statement calls a method of \<open>s.Log\<close>, a nil pointer when the field is
  not set, and a registration may panic.
\<close>

definition Run :: "Service \<Rightarrow> ServeMux \<Rightarrow> ServeMux option" where
  "Run s mux0 =
     (case svc_Log s of
        None \<Rightarrow> None
      | Some lg \<Rightarrow>
          Option.bind (HandleFunc mux0 ''/'' (\<lambda>r. \<lparr>status = 200, body = svc_Name s @ '' service''\<rparr>))
            (\<lambda>mux1.
          Option.bind (HandleFunc mux1 ''/_ready''
              (\<lambda>r. \<lparr>status = 200, body = svc_Name s @ '' service is ready''\<rparr>))
            (\<lambda>mux2.
          Option.bind (HandleFunc mux2 ''/_live''
              (\<lambda>r. \<lparr>status = 200, body = svc_Name s @ '' service is alive''\<rparr>))
            (\<lambda>mux3.
          HandleFunc mux3 ''/_version'' (\<lambda>r. \<lparr>status = 200, body = svc_Version s\<rparr>)))))"

section \<open>Properties of package logger\<close>

lemma ToLower_ascii:
  "isASCII s \<Longrightarrow> ToLower mapLower s = map lower_byte s"
proof -
  have "\<not> hasUpper s \<Longrightarrow> map lower_byte s = s"
    by (induction s) (auto simp: hasUpper_def lower_byte_def)
  then show "isASCII s \<Longrightarrow> ToLower mapLower s = map lower_byte s"
    by (auto simp: ToLower_def)
qed

lemma Contains_prefix [simp]: "Contains (xs @ ys) xs"
  unfolding Contains_def using sublist_appendI [of xs "[]" ys] by simp

lemma Contains_suffix [simp]: "Contains (xs @ ys) ys"
  unfolding Contains_def using sublist_appendI [of ys xs "[]"] by simp

lemma logger_New_ok:
  assumes "named_level (ToLower mapLower s) = Some l"
  shows "logger_New mapLower s p =
           (Inr \<lparr>addr = next_addr p, threshold = l\<rparr>,
            p\<lparr>slog_default := \<lparr>addr = next_addr p, threshold = l\<rparr>,
              next_addr := Suc (next_addr p)\<rparr>)"
  using assms by (auto simp: logger_New_def named_level_def Let_def split: if_splits)

lemma logger_New_err:
  assumes "named_level (ToLower mapLower s) = None"
  shows "logger_New mapLower s p =
           (Inl (Errorf_s ''invalid log level: '' (ToLower mapLower s)), p)"
  using assms by (auto simp: logger_New_def named_level_def Let_def split: if_splits)

lemma named_level_Some_iff:
  "(\<exists>l. named_level n = Some l) = (n \<in> {''debug'', ''info'', ''warn'', ''error''})"
  by (auto simp: named_level_def)

lemmas ToLower_eval =
  ToLower_def isASCII_def hasUpper_def isUpper_def lower_byte_def char_of_eq_iff

text \<open>
  Claim C3. \<open>logger.New(level)\<close> succeeds exactly when the lower-cased input is one of
  \<open>debug\<close>, \<open>info\<close>, \<open>warn\<close>, \<open>error\<close>; on success the threshold of the logger is the level
  named by the lower-cased input; on every other input (the empty string too) it returns
  an error whose text contains \<open>invalid log level\<close>, and leaves the process as it was.
\<close>

theorem logger_New_level_names:
  "((\<exists>lg p'. logger_New mapLower s p = (Inr lg, p')) =
      (ToLower mapLower s \<in> {''debug'', ''info'', ''warn'', ''error''})) \<and>
   (\<forall>lg p'. logger_New mapLower s p = (Inr lg, p') \<longrightarrow>
      named_level (ToLower mapLower s) = Some (threshold lg)) \<and>
   (ToLower mapLower s \<notin> {''debug'', ''info'', ''warn'', ''error''} \<longrightarrow>
      (\<exists>err. logger_New mapLower s p = (Inl err, p) \<and>
         Contains (Error quote err) ''invalid log level''))"
proof (cases "named_level (ToLower mapLower s)")
  case None
  have notin: "ToLower mapLower s \<notin> {''debug'', ''info'', ''warn'', ''error''}"
    using None named_level_Some_iff [of "ToLower mapLower s"] by simp
  have "Contains (Error quote (Errorf_s ''invalid log level: '' (ToLower mapLower s)))
          ''invalid log level''"
    using Contains_prefix [of "''invalid log level''" "'': '' @ ToLower mapLower s"]
    by simp
  with None notin show ?thesis
    by (simp add: logger_New_err)
next
  case (Some l)
  have isin: "ToLower mapLower s \<in> {''debug'', ''info'', ''warn'', ''error''}"
    using Some named_level_Some_iff [of "ToLower mapLower s"] by simp
  from Some isin show ?thesis
    by (simp add: logger_New_ok)
qed

theorem logger_New_level_names_witness:
  "logger_New id ''WARN'' \<lparr>slog_default = \<lparr>addr = 0, threshold = 0\<rparr>, next_addr = 1\<rparr> =
     (Inr \<lparr>addr = 1, threshold = LevelWarn\<rparr>,
      \<lparr>slog_default = \<lparr>addr = 1, threshold = LevelWarn\<rparr>, next_addr = 2\<rparr>) \<and>
   named_level (ToLower id ''WARN'') = Some LevelWarn \<and>
   ToLower id '''' \<notin> {''debug'', ''info'', ''warn'', ''error''} \<and>
   (\<exists>err. logger_New id '''' \<lparr>slog_default = \<lparr>addr = 0, threshold = 0\<rparr>, next_addr = 1\<rparr> =
            (Inl err, \<lparr>slog_default = \<lparr>addr = 0, threshold = 0\<rparr>, next_addr = 1\<rparr>) \<and>
          Contains (Error id err) ''invalid log level'')"
proof -
  let ?p = "\<lparr>slog_default = \<lparr>addr = 0, threshold = 0\<rparr>, next_addr = 1\<rparr>"
  have run: "logger_New id ''WARN'' ?p =
     (Inr \<lparr>addr = 1, threshold = LevelWarn\<rparr>,
      \<lparr>slog_default = \<lparr>addr = 1, threshold = LevelWarn\<rparr>, next_addr = 2\<rparr>)"
    by (simp add: logger_New_def ToLower_eval Let_def numeral_2_eq_2)
  have notin: "ToLower id '''' \<notin> {''debug'', ''info'', ''warn'', ''error''}"
    by (simp add: ToLower_eval)
  from logger_New_level_names [of id "''WARN''" ?p id] run
  have "named_level (ToLower id ''WARN'') = Some LevelWarn"
    by simp
  moreover from logger_New_level_names [of id "''''" ?p id] notin
  have "\<exists>err. logger_New id '''' ?p = (Inl err, ?p) \<and>
          Contains (Error id err) ''invalid log level''"
    by blast
  ultimately show ?thesis
    using run notin by simp
qed

text \<open>
  Claim C7, as the code has it. When \<open>logger.New(level)\<close> fails, the text of the error is
  \<open>invalid log level: \<close> followed by the lower-cased form of the input: it contains the
  lower-cased form, and so the input as supplied whenever lower-casing leaves it unchanged.
\<close>

theorem logger_New_error_text:
  "logger_New mapLower s p = (Inl err, p') \<Longrightarrow>
     Error quote err = ''invalid log level: '' @ ToLower mapLower s \<and>
     Contains (Error quote err) (ToLower mapLower s) \<and>
     (ToLower mapLower s = s \<longrightarrow> Contains (Error quote err) s)"
proof -
  assume run: "logger_New mapLower s p = (Inl err, p')"
  have "named_level (ToLower mapLower s) = None"
  proof (cases "named_level (ToLower mapLower s)")
    case None
    then show ?thesis .
  next
    case (Some l)
    with run show ?thesis by (simp add: logger_New_ok)
  qed
  with run have "err = Errorf_s ''invalid log level: '' (ToLower mapLower s)"
    by (simp add: logger_New_err)
  then have msg: "Error quote err = ''invalid log level: '' @ ToLower mapLower s"
    by (simp only: Error.simps)
  have "Contains (''invalid log level: '' @ ToLower mapLower s) (ToLower mapLower s)"
    by (rule Contains_suffix)
  with msg show ?thesis by metis
qed

theorem logger_New_error_text_witness:
  "logger_New id ''trace'' \<lparr>slog_default = \<lparr>addr = 0, threshold = 0\<rparr>, next_addr = 1\<rparr> =
     (Inl (Errorf_s ''invalid log level: '' ''trace''),
      \<lparr>slog_default = \<lparr>addr = 0, threshold = 0\<rparr>, next_addr = 1\<rparr>) \<and>
   Error id (Errorf_s ''invalid log level: '' ''trace'') = ''invalid log level: trace'' \<and>
   ToLower id ''trace'' = ''trace'' \<and>
   Contains (Error id (Errorf_s ''invalid log level: '' ''trace'')) ''trace''"
proof -
  let ?p = "\<lparr>slog_default = \<lparr>addr = 0, threshold = 0\<rparr>, next_addr = 1\<rparr>"
  have run: "logger_New id ''trace'' ?p = (Inl (Errorf_s ''invalid log level: '' ''trace''), ?p)"
    by (simp add: logger_New_def ToLower_eval)
  have low: "ToLower id ''trace'' = ''trace''"
    by (simp add: ToLower_eval)
  from logger_New_error_text [OF run, of id] low
  have "Contains (Error id (Errorf_s ''invalid log level: '' ''trace'')) ''trace''"
    by simp
  with run low show ?thesis by simp
qed

text \<open>
  Claim C7 as written fails on an input with an upper-case letter: \<open>logger.New("TRACE")\<close>
  returns the error \<open>invalid log level: trace\<close>, which does not contain \<open>TRACE\<close>.
\<close>

theorem logger_New_error_text_counterexample:
  "logger_New id ''TRACE'' \<lparr>slog_default = \<lparr>addr = 0, threshold = 0\<rparr>, next_addr = 1\<rparr> =
     (Inl (Errorf_s ''invalid log level: '' ''trace''),
      \<lparr>slog_default = \<lparr>addr = 0, threshold = 0\<rparr>, next_addr = 1\<rparr>) \<and>
   Error id (Errorf_s ''invalid log level: '' ''trace'') = ''invalid log level: trace'' \<and>
   \<not> Contains (Error id (Errorf_s ''invalid log level: '' ''trace'')) ''TRACE''"
proof -
  have "\<not> sublist ''TRACE'' ''invalid log level: trace''"
    by code_simp
  then show ?thesis
    by (simp add: logger_New_def ToLower_eval Contains_def)
qed

lemma logger_New_cases:
  obtains
    (ok) l where "named_level (ToLower mapLower s) = Some l"
      "logger_New mapLower s p =
         (Inr \<lparr>addr = next_addr p, threshold = l\<rparr>,
          p\<lparr>slog_default := \<lparr>addr = next_addr p, threshold = l\<rparr>,
            next_addr := Suc (next_addr p)\<rparr>)"
  | (err) "named_level (ToLower mapLower s) = None"
      "logger_New mapLower s p =
         (Inl (Errorf_s ''invalid log level: '' (ToLower mapLower s)), p)"
  by (cases "named_level (ToLower mapLower s)") (auto simp: logger_New_ok logger_New_err)

lemma New_each_default:
  "New_each mapLower levels p = (rs, p') \<Longrightarrow>
     slog_default p' = (if constructed rs = [] then slog_default p else last (constructed rs)) \<and>
     next_addr p \<le> next_addr p' \<and>
     (\<forall>lg \<in> set (constructed rs). next_addr p \<le> addr lg \<and> addr lg < next_addr p') \<and>
     distinct (map addr (constructed rs))"
proof (induction levels arbitrary: p rs p')
  case Nil
  then show ?case by simp
next
  case (Cons level levels)
  obtain r p1 where first: "logger_New mapLower level p = (r, p1)"
    by (cases "logger_New mapLower level p")
  obtain rs1 p2 where rest: "New_each mapLower levels p1 = (rs1, p2)"
    by (cases "New_each mapLower levels p1")
  from Cons.prems first rest have rs: "rs = r # rs1" and p': "p' = p2"
    by simp_all
  note IH = Cons.IH [OF rest]
  show ?case
  proof (cases rule: logger_New_cases [of mapLower level p])
    case (ok l)
    with first have r: "r = Inr \<lparr>addr = next_addr p, threshold = l\<rparr>"
      and p1: "p1 = p\<lparr>slog_default := \<lparr>addr = next_addr p, threshold = l\<rparr>,
                      next_addr := Suc (next_addr p)\<rparr>"
      by simp_all
    from IH show ?thesis
      unfolding rs p' r p1 by (auto split: if_splits)
  next
    case err
    with first have r: "r = Inl (Errorf_s ''invalid log level: '' (ToLower mapLower level))"
      and p1: "p1 = p"
      by simp_all
    from IH show ?thesis
      unfolding rs p' r p1 by simp
  qed
qed

text \<open>
  Claim C9. Every successful call of \<open>logger.New\<close> installs the logger it returns as the
  default logger of the process. When several loggers are constructed in one process, the
  default after the calls is the one constructed last (a failing call constructs none and
  leaves the default alone); the loggers are distinct objects, so this names one of them.
\<close>

theorem logger_New_sets_default:
  "(\<forall>lg p'. logger_New mapLower level p = (Inr lg, p') \<longrightarrow> slog_default p' = lg) \<and>
   (\<forall>rs p'. New_each mapLower levels p = (rs, p') \<longrightarrow>
      slog_default p' =
        (if constructed rs = [] then slog_default p else last (constructed rs)) \<and>
      distinct (map addr (constructed rs)))"
proof (intro conjI allI impI)
  fix lg p'
  assume "logger_New mapLower level p = (Inr lg, p')"
  then show "slog_default p' = lg"
    by (cases rule: logger_New_cases [of mapLower level p]) auto
next
  fix rs p'
  assume "New_each mapLower levels p = (rs, p')"
  from New_each_default [OF this]
  show "slog_default p' =
          (if constructed rs = [] then slog_default p else last (constructed rs))"
    and "distinct (map addr (constructed rs))"
    by simp_all
qed

theorem logger_New_sets_default_witness:
  "logger_New id ''debug'' \<lparr>slog_default = \<lparr>addr = 0, threshold = 0\<rparr>, next_addr = 1\<rparr> =
     (Inr \<lparr>addr = 1, threshold = LevelDebug\<rparr>,
      \<lparr>slog_default = \<lparr>addr = 1, threshold = LevelDebug\<rparr>, next_addr = 2\<rparr>) \<and>
   New_each id [''warn'', ''trace'', ''debug'', '''']
       \<lparr>slog_default = \<lparr>addr = 0, threshold = 0\<rparr>, next_addr = 1\<rparr> =
     ([Inr \<lparr>addr = 1, threshold = LevelWarn\<rparr>,
       Inl (Errorf_s ''invalid log level: '' ''trace''),
       Inr \<lparr>addr = 2, threshold = LevelDebug\<rparr>,
       Inl (Errorf_s ''invalid log level: '' '''')],
      \<lparr>slog_default = \<lparr>addr = 2, threshold = LevelDebug\<rparr>, next_addr = 3\<rparr>) \<and>
   slog_default \<lparr>slog_default = \<lparr>addr = 2, threshold = LevelDebug\<rparr>, next_addr = 3\<rparr> =
     last (constructed
       [Inr \<lparr>addr = 1, threshold = LevelWarn\<rparr>,
        Inl (Errorf_s ''invalid log level: '' ''trace''),
        Inr \<lparr>addr = 2, threshold = LevelDebug\<rparr>,
        Inl (Errorf_s ''invalid log level: '' '''')])"
proof -
  let ?p = "\<lparr>slog_default = \<lparr>addr = 0, threshold = 0\<rparr>, next_addr = 1\<rparr>"
  let ?rs = "[Inr \<lparr>addr = 1, threshold = LevelWarn\<rparr>,
       Inl (Errorf_s ''invalid log level: '' ''trace''),
       Inr \<lparr>addr = 2, threshold = LevelDebug\<rparr>,
       Inl (Errorf_s ''invalid log level: '' '''')]"
  let ?p' = "\<lparr>slog_default = \<lparr>addr = 2, threshold = LevelDebug\<rparr>, next_addr = 3\<rparr>"
  have one: "logger_New id ''debug'' ?p =
     (Inr \<lparr>addr = 1, threshold = LevelDebug\<rparr>,
      \<lparr>slog_default = \<lparr>addr = 1, threshold = LevelDebug\<rparr>, next_addr = 2\<rparr>)"
    by (simp add: logger_New_def ToLower_eval Let_def numeral_2_eq_2)
  have many: "New_each id [''warn'', ''trace'', ''debug'', ''''] ?p = (?rs, ?p')"
    by (simp add: logger_New_def ToLower_eval Let_def numeral_2_eq_2 numeral_3_eq_3)
  have "constructed ?rs \<noteq> []"
    by simp
  with logger_New_sets_default [of id "''debug''" ?p "[''warn'', ''trace'', ''debug'', '''']"]
    one many
  have "slog_default ?p' = last (constructed ?rs)"
    by (simp del: constructed.simps last.simps)
  with one many show ?thesis
    by (simp del: constructed.simps last.simps)
qed

section \<open>Properties of package service\<close>

lemma WithLogLevel_nil:
  "svc_Log s = None \<Longrightarrow> WithLogLevel mapLower L s p = (s\<lparr>svc_LogLevel := L\<rparr>, p)"
  by (simp add: WithLogLevel_def)

lemma WithLogLevel_invalid:
  "svc_Log s = Some old \<Longrightarrow> named_level (ToLower mapLower L) = None \<Longrightarrow>
     WithLogLevel mapLower L s p = (s\<lparr>svc_LogLevel := L\<rparr>, p)"
  by (simp add: WithLogLevel_def logger_New_err)

lemma WithLogLevel_valid:
  "svc_Log s = Some old \<Longrightarrow> named_level (ToLower mapLower L) = Some l \<Longrightarrow>
     WithLogLevel mapLower L s p =
       (s\<lparr>svc_LogLevel := L, svc_Log := Some \<lparr>addr = next_addr p, threshold = l\<rparr>\<rparr>,
        p\<lparr>slog_default := \<lparr>addr = next_addr p, threshold = l\<rparr>,
          next_addr := Suc (next_addr p)\<rparr>)"
  by (simp add: WithLogLevel_def logger_New_ok)

text \<open>
  Claim C6. The option \<open>WithLogLevel(L)\<close> always sets \<open>LogLevel\<close> to \<open>L\<close>. When the service
  has no logger it does nothing else. When it has one, it calls \<open>logger.New(L)\<close>: on success
  the new logger replaces the old one; on failure the error is dropped (the option returns
  nothing), and the old logger and the process stay as they were.
\<close>

theorem WithLogLevel_effect:
  "svc_LogLevel (fst (WithLogLevel mapLower L s p)) = L \<and>
   (svc_Log s = None \<longrightarrow> WithLogLevel mapLower L s p = (s\<lparr>svc_LogLevel := L\<rparr>, p)) \<and>
   (\<forall>old err p'. svc_Log s = Some old \<and> logger_New mapLower L p = (Inl err, p') \<longrightarrow>
      WithLogLevel mapLower L s p = (s\<lparr>svc_LogLevel := L\<rparr>, p) \<and>
      svc_Log (fst (WithLogLevel mapLower L s p)) = Some old) \<and>
   (\<forall>old lg p'. svc_Log s = Some old \<and> logger_New mapLower L p = (Inr lg, p') \<longrightarrow>
      WithLogLevel mapLower L s p = (s\<lparr>svc_LogLevel := L, svc_Log := Some lg\<rparr>, p'))"
proof (cases "svc_Log s")
  case None
  then show ?thesis by (simp add: WithLogLevel_nil)
next
  case (Some old)
  show ?thesis
  proof (cases rule: logger_New_cases [of mapLower L p])
    case (ok l)
    with Some show ?thesis by (simp add: WithLogLevel_valid)
  next
    case err
    with Some show ?thesis by (simp add: WithLogLevel_invalid)
  qed
qed

theorem WithLogLevel_effect_witness:
  "WithLogLevel id ''debug''
       \<lparr>svc_Environment = [], svc_LogLevel = ''info'', svc_Log = None, svc_Name = ''order'',
        svc_Port = 8000, svc_Version = []\<rparr>
       \<lparr>slog_default = \<lparr>addr = 1, threshold = LevelInfo\<rparr>, next_addr = 2\<rparr> =
     (\<lparr>svc_Environment = [], svc_LogLevel = ''debug'', svc_Log = None, svc_Name = ''order'',
       svc_Port = 8000, svc_Version = []\<rparr>,
      \<lparr>slog_default = \<lparr>addr = 1, threshold = LevelInfo\<rparr>, next_addr = 2\<rparr>) \<and>
   WithLogLevel id ''trace''
       \<lparr>svc_Environment = [], svc_LogLevel = ''info'',
        svc_Log = Some \<lparr>addr = 1, threshold = LevelInfo\<rparr>, svc_Name = ''order'',
        svc_Port = 8000, svc_Version = []\<rparr>
       \<lparr>slog_default = \<lparr>addr = 1, threshold = LevelInfo\<rparr>, next_addr = 2\<rparr> =
     (\<lparr>svc_Environment = [], svc_LogLevel = ''trace'',
       svc_Log = Some \<lparr>addr = 1, threshold = LevelInfo\<rparr>, svc_Name = ''order'',
       svc_Port = 8000, svc_Version = []\<rparr>,
      \<lparr>slog_default = \<lparr>addr = 1, threshold = LevelInfo\<rparr>, next_addr = 2\<rparr>) \<and>
   WithLogLevel id ''debug''
       \<lparr>svc_Environment = [], svc_LogLevel = ''info'',
        svc_Log = Some \<lparr>addr = 1, threshold = LevelInfo\<rparr>, svc_Name = ''order'',
        svc_Port = 8000, svc_Version = []\<rparr>
       \<lparr>slog_default = \<lparr>addr = 1, threshold = LevelInfo\<rparr>, next_addr = 2\<rparr> =
     (\<lparr>svc_Environment = [], svc_LogLevel = ''debug'',
       svc_Log = Some \<lparr>addr = 2, threshold = LevelDebug\<rparr>, svc_Name = ''order'',
       svc_Port = 8000, svc_Version = []\<rparr>,
      \<lparr>slog_default = \<lparr>addr = 2, threshold = LevelDebug\<rparr>, next_addr = 3\<rparr>)"
proof -
  let ?p = "\<lparr>slog_default = \<lparr>addr = 1, threshold = LevelInfo\<rparr>, next_addr = 2\<rparr>"
  let ?nil = "\<lparr>svc_Environment = [], svc_LogLevel = ''info'', svc_Log = None,
        svc_Name = ''order'', svc_Port = 8000, svc_Version = []\<rparr>"
  let ?s = "\<lparr>svc_Environment = [], svc_LogLevel = ''info'',
        svc_Log = Some \<lparr>addr = 1, threshold = LevelInfo\<rparr>, svc_Name = ''order'',
        svc_Port = 8000, svc_Version = []\<rparr>"
  have bad: "logger_New id ''trace'' ?p = (Inl (Errorf_s ''invalid log level: '' ''trace''), ?p)"
    by (simp add: logger_New_def ToLower_eval)
  have good: "logger_New id ''debug'' ?p =
      (Inr \<lparr>addr = 2, threshold = LevelDebug\<rparr>,
       \<lparr>slog_default = \<lparr>addr = 2, threshold = LevelDebug\<rparr>, next_addr = 3\<rparr>)"
    by (simp add: logger_New_def ToLower_eval Let_def numeral_3_eq_3)
  have "svc_Log ?nil = None" and "svc_Log ?s = Some \<lparr>addr = 1, threshold = LevelInfo\<rparr>"
    by simp_all
  with WithLogLevel_effect [of id "''debug''" ?nil ?p]
    WithLogLevel_effect [of id "''trace''" ?s ?p]
    WithLogLevel_effect [of id "''debug''" ?s ?p] bad good
  show ?thesis
    by simp
qed

text \<open>
  The invariant the package options keep: the service has a logger, and whenever the
  lower-cased \<open>LogLevel\<close> names a level, that level is the threshold of the logger.
\<close>

lemma package_option_consistent:
  assumes opt: "opt \<in> package_options mapLower"
    and run: "opt s p = (s', p')"
    and inv: "svc_Log s = Some lg"
      "\<And>l. named_level (ToLower mapLower (svc_LogLevel s)) = Some l \<Longrightarrow> threshold lg = l"
  shows "\<exists>lg'. svc_Log s' = Some lg' \<and>
           (\<forall>l. named_level (ToLower mapLower (svc_LogLevel s')) = Some l \<longrightarrow>
              threshold lg' = l)"
proof -
  from opt consider
      (env) e where "opt = WithEnvironment e"
    | (lvl) L where "opt = WithLogLevel mapLower L"
    | (port) n where "opt = WithPort n"
    | (ver) v where "opt = WithVersion v"
    by (auto simp: package_options_def)
  then show ?thesis
  proof cases
    case env
    with run inv show ?thesis by (auto simp: WithEnvironment_def)
  next
    case (lvl L)
    show ?thesis
    proof (cases "named_level (ToLower mapLower L)")
      case None
      with run inv(1) lvl show ?thesis by (auto simp: WithLogLevel_invalid)
    next
      case (Some l)
      with run inv(1) lvl show ?thesis by (auto simp: WithLogLevel_valid)
    qed
  next
    case port
    with run inv show ?thesis by (auto simp: WithPort_def)
  next
    case ver
    with run inv show ?thesis by (auto simp: WithVersion_def)
  qed
qed

lemma service_apply_consistent:
  assumes "set opts \<subseteq> package_options mapLower"
    and "service_apply opts s p = (s', p')"
    and "svc_Log s = Some lg"
    and "\<forall>l. named_level (ToLower mapLower (svc_LogLevel s)) = Some l \<longrightarrow> threshold lg = l"
  shows "\<exists>lg'. svc_Log s' = Some lg' \<and>
           (\<forall>l. named_level (ToLower mapLower (svc_LogLevel s')) = Some l \<longrightarrow>
              threshold lg' = l)"
  using assms
proof (induction opts arbitrary: s p lg)
  case Nil
  then show ?case by simp
next
  case (Cons opt opts)
  obtain s1 p1 where step: "opt s p = (s1, p1)"
    by (cases "opt s p")
  from Cons.prems(1) have mem: "opt \<in> package_options mapLower"
    and rest: "set opts \<subseteq> package_options mapLower"
    by simp_all
  from package_option_consistent [OF mem step Cons.prems(3)] Cons.prems(4)
  obtain lg1 where lg1: "svc_Log s1 = Some lg1"
    "\<forall>l. named_level (ToLower mapLower (svc_LogLevel s1)) = Some l \<longrightarrow> threshold lg1 = l"
    by blast
  from Cons.prems(2) step have "service_apply opts s1 p1 = (s', p')"
    by simp
  from Cons.IH [OF rest this lg1] show ?case .
qed

lemma ToLower_info: "ToLower mapLower ''info'' = ''info''"
  by (simp add: ToLower_eval)

lemma logger_New_info:
  "logger_New mapLower ''info'' p =
     (Inr \<lparr>addr = next_addr p, threshold = LevelInfo\<rparr>,
      p\<lparr>slog_default := \<lparr>addr = next_addr p, threshold = LevelInfo\<rparr>,
        next_addr := Suc (next_addr p)\<rparr>)"
  by (rule logger_New_ok) (simp add: ToLower_info named_level_def)

lemma NewWithName_eq:
  "NewWithName mapLower name opts p =
     (case service_apply opts
        \<lparr>svc_Environment = [], svc_LogLevel = ''info'',
         svc_Log = Some \<lparr>addr = next_addr p, threshold = LevelInfo\<rparr>,
         svc_Name = name, svc_Port = 8000, svc_Version = []\<rparr>
        (p\<lparr>slog_default := \<lparr>addr = next_addr p, threshold = LevelInfo\<rparr>,
           next_addr := Suc (next_addr p)\<rparr>) of
      (svc', p'') \<Rightarrow> (Inr svc', p''))"
  by (simp add: NewWithName_def logger_New_info)

text \<open>
  Claim C2, as the code has it. An option \<open>WithLogLevel(L)\<close> applied to a service that has
  a logger rebuilds the logger to the level \<open>L\<close> names when \<open>L\<close> (lower-cased) names one of
  the four levels; when the service has no logger, or \<open>L\<close> names no level, the option leaves
  the field \<open>Log\<close> as it was. For every service that \<open>NewWithName\<close> returns after options of the
  package, in any number and order, the service has a logger, and when its \<open>LogLevel\<close>
  (lower-cased) names a level, the threshold of the logger is that level.
\<close>

theorem LogLevel_consistent_when_valid:
  "(\<forall>old l. svc_Log s = Some old \<and> named_level (ToLower mapLower L) = Some l \<longrightarrow>
      (\<exists>lg. svc_Log (fst (WithLogLevel mapLower L s p)) = Some lg \<and> threshold lg = l)) \<and>
   (svc_Log s = None \<or> named_level (ToLower mapLower L) = None \<longrightarrow>
      svc_Log (fst (WithLogLevel mapLower L s p)) = svc_Log s) \<and>
   (\<forall>svc p'. set opts \<subseteq> package_options mapLower \<and>
        NewWithName mapLower name opts p = (Inr svc, p') \<longrightarrow>
      (\<exists>lg. svc_Log svc = Some lg \<and>
         (\<forall>l. named_level (ToLower mapLower (svc_LogLevel svc)) = Some l \<longrightarrow>
            threshold lg = l)))"
proof (intro conjI allI impI)
  fix old l
  assume "svc_Log s = Some old \<and> named_level (ToLower mapLower L) = Some l"
  then show "\<exists>lg. svc_Log (fst (WithLogLevel mapLower L s p)) = Some lg \<and> threshold lg = l"
    by (auto simp: WithLogLevel_valid)
next
  assume "svc_Log s = None \<or> named_level (ToLower mapLower L) = None"
  then show "svc_Log (fst (WithLogLevel mapLower L s p)) = svc_Log s"
    by (cases "svc_Log s") (auto simp: WithLogLevel_nil WithLogLevel_invalid)
next
  fix svc p'
  assume a: "set opts \<subseteq> package_options mapLower \<and>
    NewWithName mapLower name opts p = (Inr svc, p')"
  let ?start = "\<lparr>svc_Environment = [], svc_LogLevel = ''info'',
         svc_Log = Some \<lparr>addr = next_addr p, threshold = LevelInfo\<rparr>,
         svc_Name = name, svc_Port = 8000, svc_Version = []\<rparr>"
  let ?proc = "p\<lparr>slog_default := \<lparr>addr = next_addr p, threshold = LevelInfo\<rparr>,
           next_addr := Suc (next_addr p)\<rparr>"
  from a have run: "service_apply opts ?start ?proc = (svc, p')"
    by (simp add: NewWithName_eq split: prod.splits)
  have log: "svc_Log ?start = Some \<lparr>addr = next_addr p, threshold = LevelInfo\<rparr>"
    by simp
  have lvl: "\<forall>l. named_level (ToLower mapLower (svc_LogLevel ?start)) = Some l \<longrightarrow>
          threshold \<lparr>addr = next_addr p, threshold = LevelInfo\<rparr> = l"
    by (simp add: ToLower_info named_level_def)
  from a have "set opts \<subseteq> package_options mapLower" by simp
  from service_apply_consistent [OF this run log lvl]
  show "\<exists>lg. svc_Log svc = Some lg \<and>
         (\<forall>l. named_level (ToLower mapLower (svc_LogLevel svc)) = Some l \<longrightarrow>
            threshold lg = l)" .
qed
theorem LogLevel_consistent_when_valid_witness:
  "svc_Log \<lparr>svc_Environment = [], svc_LogLevel = ''info'',
            svc_Log = Some \<lparr>addr = 1, threshold = LevelInfo\<rparr>, svc_Name = ''order'',
            svc_Port = 8000, svc_Version = []\<rparr> = Some \<lparr>addr = 1, threshold = LevelInfo\<rparr> \<and>
   named_level (ToLower id ''DEBUG'') = Some LevelDebug \<and>
   (\<exists>lg. svc_Log (fst (WithLogLevel id ''DEBUG''
            \<lparr>svc_Environment = [], svc_LogLevel = ''info'',
             svc_Log = Some \<lparr>addr = 1, threshold = LevelInfo\<rparr>, svc_Name = ''order'',
             svc_Port = 8000, svc_Version = []\<rparr>
            \<lparr>slog_default = \<lparr>addr = 1, threshold = LevelInfo\<rparr>, next_addr = 2\<rparr>)) = Some lg \<and>
      threshold lg = LevelDebug) \<and>
   set [WithPort 9, WithLogLevel id ''trace'', WithLogLevel id ''Warn'', WithVersion ''v1'']
     \<subseteq> package_options id \<and>
   NewWithName id ''order''
       [WithPort 9, WithLogLevel id ''trace'', WithLogLevel id ''Warn'', WithVersion ''v1'']
       \<lparr>slog_default = \<lparr>addr = 0, threshold = 0\<rparr>, next_addr = 1\<rparr> =
     (Inr \<lparr>svc_Environment = [], svc_LogLevel = ''Warn'',
           svc_Log = Some \<lparr>addr = 2, threshold = LevelWarn\<rparr>, svc_Name = ''order'',
           svc_Port = 9, svc_Version = ''v1''\<rparr>,
      \<lparr>slog_default = \<lparr>addr = 2, threshold = LevelWarn\<rparr>, next_addr = 3\<rparr>) \<and>
   named_level (ToLower id ''Warn'') = Some LevelWarn \<and>
   named_level (ToLower id ''trace'') = None \<and>
   svc_Log (fst (WithLogLevel id ''trace''
       \<lparr>svc_Environment = [], svc_LogLevel = ''info'',
        svc_Log = Some \<lparr>addr = 1, threshold = LevelInfo\<rparr>, svc_Name = ''order'',
        svc_Port = 8000, svc_Version = []\<rparr>
       \<lparr>slog_default = \<lparr>addr = 1, threshold = LevelInfo\<rparr>, next_addr = 2\<rparr>)) =
     Some \<lparr>addr = 1, threshold = LevelInfo\<rparr>"
proof -
  let ?s = "\<lparr>svc_Environment = [], svc_LogLevel = ''info'',
            svc_Log = Some \<lparr>addr = 1, threshold = LevelInfo\<rparr>, svc_Name = ''order'',
            svc_Port = 8000, svc_Version = []\<rparr>"
  let ?p = "\<lparr>slog_default = \<lparr>addr = 1, threshold = LevelInfo\<rparr>, next_addr = 2\<rparr>"
  let ?init = "\<lparr>slog_default = \<lparr>addr = 0, threshold = 0\<rparr>, next_addr = 1\<rparr>"
  let ?opts = "[WithPort 9, WithLogLevel id ''trace'', WithLogLevel id ''Warn'',
    WithVersion ''v1'']"
  let ?svc = "\<lparr>svc_Environment = [], svc_LogLevel = ''Warn'',
           svc_Log = Some \<lparr>addr = 2, threshold = LevelWarn\<rparr>, svc_Name = ''order'',
           svc_Port = 9, svc_Version = ''v1''\<rparr>"
  let ?p' = "\<lparr>slog_default = \<lparr>addr = 2, threshold = LevelWarn\<rparr>, next_addr = 3\<rparr>"
  have log: "svc_Log ?s = Some \<lparr>addr = 1, threshold = LevelInfo\<rparr>"
    by simp
  have dbg: "named_level (ToLower id ''DEBUG'') = Some LevelDebug"
    by (simp add: ToLower_eval named_level_def)
  have wrn: "named_level (ToLower id ''Warn'') = Some LevelWarn"
    by (simp add: ToLower_eval named_level_def)
  have trc: "named_level (ToLower id ''trace'') = None"
    by (simp add: ToLower_eval named_level_def)
  have opts: "set ?opts \<subseteq> package_options id"
    by (simp add: package_options_def)
  have run: "NewWithName id ''order'' ?opts ?init = (Inr ?svc, ?p')"
    by (simp add: NewWithName_eq WithPort_def WithVersion_def
        WithLogLevel_invalid [OF _ trc] WithLogLevel_valid [OF _ wrn]
        numeral_2_eq_2 numeral_3_eq_3)
  from LogLevel_consistent_when_valid
      [where s = ?s and mapLower = id and L = "''DEBUG''" and p = ?p] log dbg
  have one: "\<exists>lg. svc_Log (fst (WithLogLevel id ''DEBUG'' ?s ?p)) = Some lg \<and>
      threshold lg = LevelDebug"
    by blast
  from LogLevel_consistent_when_valid
      [where mapLower = id and opts = ?opts and name = "''order''" and p = ?init] opts run
  have "\<exists>lg. svc_Log ?svc = Some lg \<and>
      (\<forall>l. named_level (ToLower id (svc_LogLevel ?svc)) = Some l \<longrightarrow> threshold lg = l)"
    by blast
  with wrn have "threshold \<lparr>addr = 2, threshold = LevelWarn\<rparr> = LevelWarn"
    by simp
  from LogLevel_consistent_when_valid
      [where s = ?s and mapLower = id and L = "''trace''" and p = ?p] trc
  have "svc_Log (fst (WithLogLevel id ''trace'' ?s ?p)) = svc_Log ?s"
    by blast
  with log have kept: "svc_Log (fst (WithLogLevel id ''trace'' ?s ?p)) =
      Some \<lparr>addr = 1, threshold = LevelInfo\<rparr>"
    by simp
  from one log dbg opts run wrn trc kept show ?thesis
    by blast
qed

text \<open>
  Claim C2 as written fails. \<open>NewWithName("order", WithLogLevel("trace"))\<close> returns a service
  whose \<open>LogLevel\<close> is \<open>trace\<close>, which names no level, and whose logger is the one built at
  \<open>info\<close>: the option changed \<open>LogLevel\<close> and did not rebuild the logger. On a service with
  no logger, \<open>WithLogLevel("debug")\<close> sets \<open>LogLevel\<close> and builds none.
\<close>

theorem LogLevel_consistent_counterexample:
  "NewWithName id ''order'' [WithLogLevel id ''trace'']
       \<lparr>slog_default = \<lparr>addr = 0, threshold = 0\<rparr>, next_addr = 1\<rparr> =
     (Inr \<lparr>svc_Environment = [], svc_LogLevel = ''trace'',
           svc_Log = Some \<lparr>addr = 1, threshold = LevelInfo\<rparr>, svc_Name = ''order'',
           svc_Port = 8000, svc_Version = []\<rparr>,
      \<lparr>slog_default = \<lparr>addr = 1, threshold = LevelInfo\<rparr>, next_addr = 2\<rparr>) \<and>
   named_level (ToLower id ''trace'') \<noteq> Some LevelInfo \<and>
   named_level (ToLower id ''trace'') = None \<and>
   WithLogLevel id ''debug''
       \<lparr>svc_Environment = [], svc_LogLevel = [], svc_Log = None, svc_Name = [],
        svc_Port = 0, svc_Version = []\<rparr>
       \<lparr>slog_default = \<lparr>addr = 0, threshold = 0\<rparr>, next_addr = 1\<rparr> =
     (\<lparr>svc_Environment = [], svc_LogLevel = ''debug'', svc_Log = None, svc_Name = [],
       svc_Port = 0, svc_Version = []\<rparr>,
      \<lparr>slog_default = \<lparr>addr = 0, threshold = 0\<rparr>, next_addr = 1\<rparr>)"
proof -
  have trc: "named_level (ToLower id ''trace'') = None"
    by (simp add: ToLower_eval named_level_def)
  show ?thesis
    by (simp add: NewWithName_eq WithLogLevel_invalid [OF _ trc] WithLogLevel_nil trc
        numeral_2_eq_2)
qed

text \<open>
  Claim C10. \<open>NewWithName\<close> never returns an error: for every name, every list of options
  (any functions of the option type, which return) and every state of the process it
  returns a service and no error, since \<open>logger.New("info")\<close> succeeds. The service is the
  initial one, with the logger built at \<open>info\<close>, after the options in order.
\<close>

theorem NewWithName_no_error:
  "(\<exists>svc p'. NewWithName mapLower name opts p = (Inr svc, p')) \<and>
   fst (NewWithName mapLower name opts p) =
     Inr (fst (service_apply opts
       \<lparr>svc_Environment = [], svc_LogLevel = ''info'',
        svc_Log = Some \<lparr>addr = next_addr p, threshold = LevelInfo\<rparr>,
        svc_Name = name, svc_Port = 8000, svc_Version = []\<rparr>
       (p\<lparr>slog_default := \<lparr>addr = next_addr p, threshold = LevelInfo\<rparr>,
          next_addr := Suc (next_addr p)\<rparr>)))"
  by (simp add: NewWithName_eq split: prod.splits)

section \<open>Properties of package config\<close>

lemma Getenv_empty_iff: "(Getenv env key = []) = (env key = None \<or> env key = Some [])"
  by (simp add: Getenv_def split: option.splits)

lemma WithDefaultPort_unset:
  "Getenv env ''APP_PORT'' = [] \<Longrightarrow> WithDefaultPort P env c = (None, c\<lparr>cfg_Port := P\<rparr>)"
  by (simp add: WithDefaultPort_def)

lemma WithDefaultPort_parsed:
  "Getenv env ''APP_PORT'' = v \<Longrightarrow> v \<noteq> [] \<Longrightarrow> Atoi v = Inr n \<Longrightarrow>
     WithDefaultPort P env c = (None, c\<lparr>cfg_Port := n\<rparr>)"
  by (simp add: WithDefaultPort_def)

lemma WithDefaultPort_invalid:
  "Getenv env ''APP_PORT'' = v \<Longrightarrow> v \<noteq> [] \<Longrightarrow> Atoi v = Inl err \<Longrightarrow>
     WithDefaultPort P env c =
       (Some (Errorf_w ''invalid port in APP_PORT environment variable: '' err),
        c\<lparr>cfg_Port := P\<rparr>)"
  by (simp add: WithDefaultPort_def)

lemma config_apply_append:
  "config_apply env (xs @ ys) c =
     (case config_apply env xs c of Inl e \<Rightarrow> Inl e | Inr c' \<Rightarrow> config_apply env ys c')"
  by (induction xs arbitrary: c) (auto split: prod.splits option.splits)

lemmas Atoi_eval =
  Atoi_def isDigit_def Let_def

lemma Atoi_examples:
  "Atoi ''9000'' = Inr 9000"
  "Atoi ''0'' = Inr 0"
  "Atoi ''-1'' = Inr (- 1)"
  "Atoi ''not-a-number'' = Inl (NumError ''Atoi'' ''not-a-number'' ErrSyntax)"
  "Atoi ''80 '' = Inl (NumError ''Atoi'' ''80 '' ErrSyntax)"
  "Atoi ''99999999999999999999'' = Inl (NumError ''Atoi'' ''99999999999999999999'' ErrRange)"
  by (simp_all add: Atoi_eval)

declare digits10.simps [simp del]

lemma ParseUint_loop_snoc:
  "ParseUint_loop a (xs @ [c]) =
     (case ParseUint_loop a xs of
        Inl e \<Rightarrow> Inl e
      | Inr m \<Rightarrow>
          if \<not> isDigit c then Inl ErrSyntax
          else if m * 10 + (of_char c - 48) > 2 ^ 64 - 1 then Inl ErrRange
          else Inr (m * 10 + (of_char c - 48)))"
  by (induction xs arbitrary: a) (simp_all add: Let_def)

lemma digit_char:
  assumes "d < (10::nat)"
  shows "isDigit (char_of (48 + d))" and "of_char (char_of (48 + d)) - 48 = d"
    and "char_of (48 + d) \<noteq> CHR ''+''" and "char_of (48 + d) \<noteq> CHR ''-''"
  using assms by (simp_all add: isDigit_def char_of_eq_iff take_bit_eq_mod)

lemma digits10_hd:
  "digits10 n \<noteq> [] \<and> hd (digits10 n) \<noteq> CHR ''+'' \<and> hd (digits10 n) \<noteq> CHR ''-''"
proof (induction n rule: digits10.induct)
  case (1 n)
  show ?case
  proof (cases "n < 10")
    case True
    then show ?thesis
      by (simp add: digits10.simps [of n] digit_char)
  next
    case False
    with 1 show ?thesis
      by (simp add: digits10.simps [of n])
  qed
qed

lemma ParseUint_loop_digits10:
  "n < 2 ^ 64 \<Longrightarrow> ParseUint_loop 0 (digits10 n) = Inr n"
proof (induction n rule: digits10.induct)
  case (1 n)
  show ?case
  proof (cases "n < 10")
    case True
    with 1(2) show ?thesis
      by (simp add: digits10.simps [of n] digit_char Let_def)
  next
    case False
    from 1(2) have "n div 10 < 2 ^ 64"
      by (rule order.strict_trans1 [OF div_le_dividend])
    with 1(1) False have IH: "ParseUint_loop 0 (digits10 (n div 10)) = Inr (n div 10)"
      by simp
    have d: "n mod 10 < 10" by simp
    from False IH 1(2) show ?thesis
      by (simp add: digits10.simps [of n] ParseUint_loop_snoc digit_char [OF d])
  qed
qed

text \<open>
  \<open>Atoi\<close> reads back what \<open>Itoa\<close> writes, for every \<open>int\<close> of 64 bits: a port written in
  decimal is a string that parses, as that port.
\<close>

lemma Atoi_Itoa:
  assumes "- (2 ^ 63) \<le> i" and "i < 2 ^ 63"
  shows "Atoi (Itoa i) = Inr i"
proof (cases "i < 0")
  case True
  let ?n = "nat (- i)"
  from assms True have n: "?n \<le> 2 ^ 63" by simp
  then have "?n < 2 ^ 64" by simp
  then have "ParseUint_loop 0 (digits10 ?n) = Inr ?n"
    by (rule ParseUint_loop_digits10)
  with True n digits10_hd [of ?n] show ?thesis
    by (simp add: Atoi_def Itoa_def)
next
  case False
  let ?n = "nat i"
  from assms False have n: "?n < 2 ^ 63" by simp
  then have "?n < 2 ^ 64" by simp
  then have "ParseUint_loop 0 (digits10 ?n) = Inr ?n"
    by (rule ParseUint_loop_digits10)
  with False n digits10_hd [of ?n] show ?thesis
    by (simp add: Atoi_def Itoa_def)
qed

lemma Itoa_nonempty: "Itoa i \<noteq> []"
  using digits10_hd [of "nat i"] by (simp add: Itoa_def)

lemma Itoa_examples:
  "Itoa 9000 = ''9000''"
  "Itoa 0 = ''0''"
  "Itoa (- 1) = ''-1''"
  by (simp_all add: Itoa_def digits10.simps char_of_eq_iff)

text \<open>
  Claim C8. \<open>config.New\<close> without options always succeeds: \<open>Environment\<close> is the value of
  \<open>APP_ENV\<close>, or \<open>local\<close> when that is unset or empty; \<open>LogLevel\<close> is the value of
  \<open>APP_LOG_LEVEL\<close>, or \<open>info\<close> when that is unset or empty; \<open>Port\<close> is 0, whatever \<open>APP_PORT\<close> is.
\<close>

theorem config_New_no_options:
  "config_New env [] =
     Inr \<lparr>cfg_Port = 0,
          cfg_LogLevel =
            (case env ''APP_LOG_LEVEL'' of
               None \<Rightarrow> ''info'' | Some v \<Rightarrow> if v = [] then ''info'' else v),
          cfg_Environment =
            (case env ''APP_ENV'' of
               None \<Rightarrow> ''local'' | Some v \<Rightarrow> if v = [] then ''local'' else v)\<rparr>"
  by (simp add: config_New_def Getenv_def cmp_Or_def split: option.splits)

text \<open>
  Claim C1. For every integer \<open>P\<close>: when \<open>APP_PORT\<close> is unset or empty,
  \<open>config.New(WithDefaultPort(P))\<close> succeeds with \<open>Port = P\<close>; when \<open>APP_PORT\<close> holds a
  non-empty string that \<open>strconv.Atoi\<close> parses as \<open>n\<close>, it succeeds with \<open>Port = n\<close>, whatever
  \<open>P\<close> is; so it does when \<open>APP_PORT\<close> holds the decimal form of an \<open>int\<close> \<open>n\<close>. The other two
  fields are those of \<open>config.New\<close> without options.
\<close>

theorem config_New_default_port:
  "(env ''APP_PORT'' = None \<or> env ''APP_PORT'' = Some [] \<longrightarrow>
      (\<exists>cfg. config_New env [] = Inr cfg \<and>
         config_New env [WithDefaultPort P] = Inr (cfg\<lparr>cfg_Port := P\<rparr>))) \<and>
   (\<forall>v n. env ''APP_PORT'' = Some v \<and> v \<noteq> [] \<and> Atoi v = Inr n \<longrightarrow>
      (\<exists>cfg. config_New env [] = Inr cfg \<and>
         config_New env [WithDefaultPort P] = Inr (cfg\<lparr>cfg_Port := n\<rparr>))) \<and>
   (\<forall>n. - (2 ^ 63) \<le> n \<and> n < 2 ^ 63 \<and> env ''APP_PORT'' = Some (Itoa n) \<longrightarrow>
      (\<exists>cfg. config_New env [] = Inr cfg \<and>
         config_New env [WithDefaultPort P] = Inr (cfg\<lparr>cfg_Port := n\<rparr>)))"
proof (intro conjI allI impI)
  assume "env ''APP_PORT'' = None \<or> env ''APP_PORT'' = Some []"
  then have "Getenv env ''APP_PORT'' = []"
    by (simp add: Getenv_empty_iff)
  then show "\<exists>cfg. config_New env [] = Inr cfg \<and>
         config_New env [WithDefaultPort P] = Inr (cfg\<lparr>cfg_Port := P\<rparr>)"
    by (simp add: config_New_def WithDefaultPort_unset)
next
  fix v n
  assume a: "env ''APP_PORT'' = Some v \<and> v \<noteq> [] \<and> Atoi v = Inr n"
  then have "Getenv env ''APP_PORT'' = v"
    by (simp add: Getenv_def)
  with a show "\<exists>cfg. config_New env [] = Inr cfg \<and>
         config_New env [WithDefaultPort P] = Inr (cfg\<lparr>cfg_Port := n\<rparr>)"
    by (simp add: config_New_def WithDefaultPort_parsed)
next
  fix n :: int
  assume a: "- (2 ^ 63) \<le> n \<and> n < 2 ^ 63 \<and> env ''APP_PORT'' = Some (Itoa n)"
  then have "Getenv env ''APP_PORT'' = Itoa n" and "Atoi (Itoa n) = Inr n"
    by (simp_all add: Getenv_def Atoi_Itoa)
  then show "\<exists>cfg. config_New env [] = Inr cfg \<and>
         config_New env [WithDefaultPort P] = Inr (cfg\<lparr>cfg_Port := n\<rparr>)"
    by (simp add: config_New_def WithDefaultPort_parsed [OF _ Itoa_nonempty])
qed

theorem config_New_default_port_witness:
  "Map.empty ''APP_PORT'' = None \<and>
   config_New Map.empty [WithDefaultPort 8003] =
     Inr \<lparr>cfg_Port = 8003, cfg_LogLevel = ''info'', cfg_Environment = ''local''\<rparr> \<and>
   [''APP_PORT'' \<mapsto> ''9000''] ''APP_PORT'' = Some ''9000'' \<and> ''9000'' \<noteq> [] \<and>
   Atoi ''9000'' = Inr 9000 \<and>
   config_New [''APP_PORT'' \<mapsto> ''9000''] [WithDefaultPort 8003] =
     Inr \<lparr>cfg_Port = 9000, cfg_LogLevel = ''info'', cfg_Environment = ''local''\<rparr> \<and>
   - (2 ^ 63) \<le> (- 1 :: int) \<and> (- 1 :: int) < 2 ^ 63 \<and>
   [''APP_PORT'' \<mapsto> ''-1''] ''APP_PORT'' = Some (Itoa (- 1)) \<and>
   config_New [''APP_PORT'' \<mapsto> ''-1''] [WithDefaultPort 8003] =
     Inr \<lparr>cfg_Port = - 1, cfg_LogLevel = ''info'', cfg_Environment = ''local''\<rparr>"
proof -
  have unset: "(Map.empty :: environ) ''APP_PORT'' = None"
    by simp
  have set: "[''APP_PORT'' \<mapsto> ''9000''] ''APP_PORT'' = Some ''9000'' \<and> ''9000'' \<noteq> [] \<and>
      Atoi ''9000'' = Inr 9000"
    by (simp add: Atoi_examples)
  have base1: "config_New Map.empty [] =
      Inr \<lparr>cfg_Port = 0, cfg_LogLevel = ''info'', cfg_Environment = ''local''\<rparr>"
    by (simp add: config_New_def Getenv_def cmp_Or_def)
  have base2: "config_New [''APP_PORT'' \<mapsto> ''9000''] [] =
      Inr \<lparr>cfg_Port = 0, cfg_LogLevel = ''info'', cfg_Environment = ''local''\<rparr>"
    by (simp add: config_New_def Getenv_def cmp_Or_def)
  from config_New_default_port [of Map.empty 8003] unset base1
  have one: "config_New Map.empty [WithDefaultPort 8003] =
     Inr \<lparr>cfg_Port = 8003, cfg_LogLevel = ''info'', cfg_Environment = ''local''\<rparr>"
    by auto
  from config_New_default_port [of "[''APP_PORT'' \<mapsto> ''9000'']" 8003] set base2
  have two: "config_New [''APP_PORT'' \<mapsto> ''9000''] [WithDefaultPort 8003] =
     Inr \<lparr>cfg_Port = 9000, cfg_LogLevel = ''info'', cfg_Environment = ''local''\<rparr>"
    by auto
  have dec: "- (2 ^ 63) \<le> (- 1 :: int) \<and> (- 1 :: int) < 2 ^ 63 \<and>
      [''APP_PORT'' \<mapsto> ''-1''] ''APP_PORT'' = Some (Itoa (- 1))"
    by (simp add: Itoa_examples)
  have base3: "config_New [''APP_PORT'' \<mapsto> ''-1''] [] =
      Inr \<lparr>cfg_Port = 0, cfg_LogLevel = ''info'', cfg_Environment = ''local''\<rparr>"
    by (simp add: config_New_def Getenv_def cmp_Or_def)
  from config_New_default_port [of "[''APP_PORT'' \<mapsto> ''-1'']" 8003] dec
  have "\<exists>cfg. config_New [''APP_PORT'' \<mapsto> ''-1''] [] = Inr cfg \<and>
      config_New [''APP_PORT'' \<mapsto> ''-1''] [WithDefaultPort 8003] =
        Inr (cfg\<lparr>cfg_Port := - 1\<rparr>)"
    by blast
  with base3
  have three: "config_New [''APP_PORT'' \<mapsto> ''-1''] [WithDefaultPort 8003] =
     Inr \<lparr>cfg_Port = - 1, cfg_LogLevel = ''info'', cfg_Environment = ''local''\<rparr>"
    by auto
  from unset set one two dec three show ?thesis
    by blast
qed

lemma config_New_snoc:
  "config_New env (pre @ [opt]) =
     (case config_New env pre of
        Inl e \<Rightarrow> Inl e
      | Inr c \<Rightarrow> (case opt env c of (None, c') \<Rightarrow> Inr c' | (Some e, c') \<Rightarrow> Inl e))"
  by (simp add: config_New_def config_apply_append
      split: sum.splits prod.splits option.splits)

text \<open>
  The result without options and the result with one more option at the end determine
  \<open>New\<close>: a function that agrees with it on both is \<open>New\<close>. So a statement of these two
  fixes the order in which the options are applied and what each is applied to.
\<close>

lemma config_New_determined:
  assumes unit: "\<And>env. f env [] = config_New env []"
    and snoc: "\<And>env pre opt. f env (pre @ [opt]) =
      (case f env pre of
         Inl e \<Rightarrow> Inl e
       | Inr c \<Rightarrow> (case opt env c of (None, c') \<Rightarrow> Inr c' | (Some e, c') \<Rightarrow> Inl e))"
  shows "f env opts = config_New env opts"
proof (induction opts rule: rev_induct)
  case Nil
  show ?case by (rule unit)
next
  case (snoc x xs)
  with assms(2) [of env xs x] config_New_snoc [of env xs x] show ?case
    by simp
qed

text \<open>
  Claim C4. When \<open>APP_PORT\<close> holds a non-empty string that \<open>strconv.Atoi\<close> rejects,
  \<open>config.New(WithDefaultPort(P))\<close> fails for every \<open>P\<close>: it returns no configuration and
  the error of \<open>Atoi\<close> wrapped in a text that starts with \<open>invalid port\<close>. The options are
  applied in the order supplied: without options the result is the base configuration;
  with one more option at the end, the options before it are applied first, and the last
  one is applied to the configuration they produced, its result being the result of
  \<open>New\<close>; in general the options after a prefix run on the configuration the prefix
  produced. The first option that fails ends the construction with the error of that
  option, whatever options follow.
\<close>

theorem config_New_invalid_port:
  "(\<forall>v err. env ''APP_PORT'' = Some v \<and> v \<noteq> [] \<and> Atoi v = Inl err \<longrightarrow>
      config_New env [WithDefaultPort P] =
        Inl (Errorf_w ''invalid port in APP_PORT environment variable: '' err) \<and>
      prefix ''invalid port''
        (Error quote (Errorf_w ''invalid port in APP_PORT environment variable: '' err))) \<and>
   config_New env [] =
     Inr \<lparr>cfg_Port = 0,
          cfg_LogLevel = cmp_Or (Getenv env ''APP_LOG_LEVEL'') ''info'',
          cfg_Environment = cmp_Or (Getenv env ''APP_ENV'') ''local''\<rparr> \<and>
   config_New env (pre @ [opt]) =
     (case config_New env pre of
        Inl e \<Rightarrow> Inl e
      | Inr c \<Rightarrow> (case opt env c of (None, c') \<Rightarrow> Inr c' | (Some e, c') \<Rightarrow> Inl e)) \<and>
   config_New env (pre @ post) =
     (case config_New env pre of Inl e \<Rightarrow> Inl e | Inr c \<Rightarrow> config_apply env post c) \<and>
   (\<forall>c e c'. config_New env pre = Inr c \<and> opt env c = (Some e, c') \<longrightarrow>
      config_New env (pre @ opt # post) = Inl e)"
proof (intro conjI allI impI)
  fix v err
  assume a: "env ''APP_PORT'' = Some v \<and> v \<noteq> [] \<and> Atoi v = Inl err"
  then have "Getenv env ''APP_PORT'' = v"
    by (simp add: Getenv_def)
  with a show "config_New env [WithDefaultPort P] =
        Inl (Errorf_w ''invalid port in APP_PORT environment variable: '' err)"
    by (simp add: config_New_def WithDefaultPort_invalid)
  have "prefix ''invalid port''
      (''invalid port'' @ '' in APP_PORT environment variable: '' @ Error quote err)"
    by (rule prefixI) simp
  then show "prefix ''invalid port''
      (Error quote (Errorf_w ''invalid port in APP_PORT environment variable: '' err))"
    by simp
next
  show "config_New env [] =
     Inr \<lparr>cfg_Port = 0,
          cfg_LogLevel = cmp_Or (Getenv env ''APP_LOG_LEVEL'') ''info'',
          cfg_Environment = cmp_Or (Getenv env ''APP_ENV'') ''local''\<rparr>"
    by (simp add: config_New_def)
next
  show "config_New env (pre @ [opt]) =
     (case config_New env pre of
        Inl e \<Rightarrow> Inl e
      | Inr c \<Rightarrow> (case opt env c of (None, c') \<Rightarrow> Inr c' | (Some e, c') \<Rightarrow> Inl e))"
    by (rule config_New_snoc)
next
  show "config_New env (pre @ post) =
     (case config_New env pre of Inl e \<Rightarrow> Inl e | Inr c \<Rightarrow> config_apply env post c)"
    by (simp add: config_New_def config_apply_append)
next
  fix c e c'
  assume "config_New env pre = Inr c \<and> opt env c = (Some e, c')"
  then show "config_New env (pre @ opt # post) = Inl e"
    by (simp add: config_New_def config_apply_append)
qed

theorem config_New_invalid_port_witness:
  "[''APP_PORT'' \<mapsto> ''not-a-number''] ''APP_PORT'' = Some ''not-a-number'' \<and>
   ''not-a-number'' \<noteq> [] \<and>
   Atoi ''not-a-number'' = Inl (NumError ''Atoi'' ''not-a-number'' ErrSyntax) \<and>
   config_New [''APP_PORT'' \<mapsto> ''not-a-number''] [WithDefaultPort 8080] =
     Inl (Errorf_w ''invalid port in APP_PORT environment variable: ''
            (NumError ''Atoi'' ''not-a-number'' ErrSyntax)) \<and>
   prefix ''invalid port''
     (Error id (Errorf_w ''invalid port in APP_PORT environment variable: ''
        (NumError ''Atoi'' ''not-a-number'' ErrSyntax))) \<and>
   config_New Map.empty ([WithDefaultPort 8888, withTestLogLevel ''trace''] @ [withTestEnv ''staging'']) =
     Inr \<lparr>cfg_Port = 8888, cfg_LogLevel = ''trace'', cfg_Environment = ''staging''\<rparr> \<and>
   config_New Map.empty ([withTestLogLevel ''debug''] @ [withTestLogLevel ''trace'']) =
     Inr \<lparr>cfg_Port = 0, cfg_LogLevel = ''trace'', cfg_Environment = ''local''\<rparr> \<and>
   config_New Map.empty ([withTestLogLevel ''trace''] @ [withTestLogLevel ''debug'']) =
     Inr \<lparr>cfg_Port = 0, cfg_LogLevel = ''debug'', cfg_Environment = ''local''\<rparr> \<and>
   config_New [''APP_PORT'' \<mapsto> ''not-a-number''] [withTestLogLevel ''trace''] =
     Inr \<lparr>cfg_Port = 0, cfg_LogLevel = ''trace'', cfg_Environment = ''local''\<rparr> \<and>
   WithDefaultPort 8080 [''APP_PORT'' \<mapsto> ''not-a-number'']
       \<lparr>cfg_Port = 0, cfg_LogLevel = ''trace'', cfg_Environment = ''local''\<rparr> =
     (Some (Errorf_w ''invalid port in APP_PORT environment variable: ''
              (NumError ''Atoi'' ''not-a-number'' ErrSyntax)),
      \<lparr>cfg_Port = 8080, cfg_LogLevel = ''trace'', cfg_Environment = ''local''\<rparr>) \<and>
   config_New [''APP_PORT'' \<mapsto> ''not-a-number'']
       ([withTestLogLevel ''trace''] @ WithDefaultPort 8080 #
          [\<lambda>env c. (Some (Errorf_s ''later option: '' ''failed''), c), withTestEnv ''staging'']) =
     Inl (Errorf_w ''invalid port in APP_PORT environment variable: ''
            (NumError ''Atoi'' ''not-a-number'' ErrSyntax)) \<and>
   config_New [''APP_PORT'' \<mapsto> ''not-a-number'']
       ([withTestLogLevel ''trace''] @
          (\<lambda>env c. (Some (Errorf_s ''later option: '' ''failed''), c)) # [WithDefaultPort 8080]) =
     Inl (Errorf_s ''later option: '' ''failed'')"
proof -
  let ?env = "[''APP_PORT'' \<mapsto> ''not-a-number'']"
  let ?err = "NumError ''Atoi'' ''not-a-number'' ErrSyntax"
  let ?bad = "Errorf_w ''invalid port in APP_PORT environment variable: '' ?err"
  let ?later = "(\<lambda>env c. (Some (Errorf_s ''later option: '' ''failed''), c)) :: ConfigOption"
  let ?mid = "\<lparr>cfg_Port = 0, cfg_LogLevel = ''trace'', cfg_Environment = ''local''\<rparr>"
  have env: "?env ''APP_PORT'' = Some ''not-a-number'' \<and> ''not-a-number'' \<noteq> [] \<and>
      Atoi ''not-a-number'' = Inl ?err"
    by (simp add: Atoi_examples)
  from config_New_invalid_port [where env = ?env and P = 8080 and quote = id] env
  have one: "config_New ?env [WithDefaultPort 8080] = Inl ?bad \<and>
      prefix ''invalid port'' (Error id ?bad)"
    by blast
  note unit = config_New_invalid_port [THEN conjunct2, THEN conjunct1]
  note snoc = config_New_invalid_port [THEN conjunct2, THEN conjunct2, THEN conjunct1]
  have base: "config_New Map.empty [] =
      Inr \<lparr>cfg_Port = 0, cfg_LogLevel = ''info'', cfg_Environment = ''local''\<rparr>"
    using unit [of Map.empty]
    by (simp add: Getenv_def cmp_Or_def)
  have dbg: "config_New Map.empty [withTestLogLevel ''debug''] =
      Inr \<lparr>cfg_Port = 0, cfg_LogLevel = ''debug'', cfg_Environment = ''local''\<rparr>"
    using snoc [of Map.empty "[]" "withTestLogLevel ''debug''"] base
    by (simp add: withTestLogLevel_def)
  have trc: "config_New Map.empty [withTestLogLevel ''trace''] =
      Inr \<lparr>cfg_Port = 0, cfg_LogLevel = ''trace'', cfg_Environment = ''local''\<rparr>"
    using snoc [of Map.empty "[]" "withTestLogLevel ''trace''"] base
    by (simp add: withTestLogLevel_def)
  have dt: "config_New Map.empty ([withTestLogLevel ''debug''] @ [withTestLogLevel ''trace'']) =
      Inr \<lparr>cfg_Port = 0, cfg_LogLevel = ''trace'', cfg_Environment = ''local''\<rparr>"
    using snoc [of Map.empty "[withTestLogLevel ''debug'']" "withTestLogLevel ''trace''"] dbg
    by (simp add: withTestLogLevel_def)
  have td: "config_New Map.empty ([withTestLogLevel ''trace''] @ [withTestLogLevel ''debug'']) =
      Inr \<lparr>cfg_Port = 0, cfg_LogLevel = ''debug'', cfg_Environment = ''local''\<rparr>"
    using snoc [of Map.empty "[withTestLogLevel ''trace'']" "withTestLogLevel ''debug''"] trc
    by (simp add: withTestLogLevel_def)
  have port: "config_New Map.empty [WithDefaultPort 8888] =
      Inr \<lparr>cfg_Port = 8888, cfg_LogLevel = ''info'', cfg_Environment = ''local''\<rparr>"
    using snoc [of Map.empty "[]" "WithDefaultPort 8888"] base
    by (simp add: WithDefaultPort_def Getenv_def)
  have two: "config_New Map.empty [WithDefaultPort 8888, withTestLogLevel ''trace''] =
      Inr \<lparr>cfg_Port = 8888, cfg_LogLevel = ''trace'', cfg_Environment = ''local''\<rparr>"
    using snoc [of Map.empty "[WithDefaultPort 8888]" "withTestLogLevel ''trace''"] port
    by (simp add: withTestLogLevel_def)
  have three: "config_New Map.empty
        ([WithDefaultPort 8888, withTestLogLevel ''trace''] @ [withTestEnv ''staging'']) =
      Inr \<lparr>cfg_Port = 8888, cfg_LogLevel = ''trace'', cfg_Environment = ''staging''\<rparr>"
    using snoc [of Map.empty "[WithDefaultPort 8888, withTestLogLevel ''trace'']"
        "withTestEnv ''staging''"] two
    by (simp add: withTestEnv_def)
  have pre: "config_New ?env [withTestLogLevel ''trace''] = Inr ?mid"
    by (simp add: config_New_def withTestLogLevel_def Getenv_def cmp_Or_def)
  have opt: "WithDefaultPort 8080 ?env ?mid =
      (Some ?bad, \<lparr>cfg_Port = 8080, cfg_LogLevel = ''trace'', cfg_Environment = ''local''\<rparr>)"
    using WithDefaultPort_invalid [of ?env "''not-a-number''" ?err 8080 ?mid]
    by (simp add: Getenv_def Atoi_examples)
  have later: "?later ?env ?mid = (Some (Errorf_s ''later option: '' ''failed''), ?mid)"
    by simp
  from config_New_invalid_port
      [where env = ?env and pre = "[withTestLogLevel ''trace'']"
        and opt = "WithDefaultPort 8080" and post = "[?later, withTestEnv ''staging'']"]
    pre opt
  have first: "config_New ?env
      ([withTestLogLevel ''trace''] @ WithDefaultPort 8080 # [?later, withTestEnv ''staging'']) =
      Inl ?bad"
    by blast
  from config_New_invalid_port
      [where env = ?env and pre = "[withTestLogLevel ''trace'']"
        and opt = ?later and post = "[WithDefaultPort 8080]"]
    pre later
  have second: "config_New ?env
      ([withTestLogLevel ''trace''] @ ?later # [WithDefaultPort 8080]) =
      Inl (Errorf_s ''later option: '' ''failed'')"
    by blast
  from env one three dt td pre opt first second show ?thesis
    by blast
qed

section \<open>Properties of the routes\<close>

lemma Run_mux:
  "svc_Log s = Some lg \<Longrightarrow>
     Run s [] =
       Some [(''/'', \<lambda>r. \<lparr>status = 200, body = svc_Name s @ '' service''\<rparr>),
             (''/_ready'', \<lambda>r. \<lparr>status = 200, body = svc_Name s @ '' service is ready''\<rparr>),
             (''/_live'', \<lambda>r. \<lparr>status = 200, body = svc_Name s @ '' service is alive''\<rparr>),
             (''/_version'', \<lambda>r. \<lparr>status = 200, body = svc_Version s\<rparr>)]"
  by (simp add: Run_def HandleFunc_def)

text \<open>
  What the multiplexer of \<open>Run\<close> answers, for every service with a logger and every path:
  the three exact routes, and the root handler for every other path that starts with a
  slash. Only a path that does not start with a slash is not found.
\<close>

lemma Run_ServeHTTP:
  assumes "svc_Log s = Some lg"
  shows "\<exists>mux. Run s [] = Some mux \<and>
           ServeHTTP mux path =
             (if path = ''/_ready'' then \<lparr>status = 200, body = svc_Name s @ '' service is ready''\<rparr>
              else if path = ''/_live'' then \<lparr>status = 200, body = svc_Name s @ '' service is alive''\<rparr>
              else if path = ''/_version'' then \<lparr>status = 200, body = svc_Version s\<rparr>
              else if prefix ''/'' path then \<lparr>status = 200, body = svc_Name s @ '' service''\<rparr>
              else NotFound)"
proof -
  have root: "path = ''/'' \<Longrightarrow> prefix ''/'' path"
    by simp
  show ?thesis
    unfolding Run_mux [OF assms]
    using root by (auto simp: ServeHTTP_def ServeMux_match_def)
qed

text \<open>
  Claim C5, at the input where the code departs from it. For the service named \<open>order\<close> with
  version \<open>test-version\<close>, as \<open>NewWithName\<close> returns it, the four routes of \<open>Run\<close> answer with
  their bodies and status 200; the path \<open>/unknown\<close>, which is none of the four, is answered
  by the handler registered for \<open>/\<close>, with status 200 and the body \<open>order service\<close>, and not by
  the not-found response.
\<close>

theorem Run_unmapped_path:
  "NewWithName id ''order'' [WithVersion ''test-version'']
       \<lparr>slog_default = \<lparr>addr = 0, threshold = 0\<rparr>, next_addr = 1\<rparr> =
     (Inr \<lparr>svc_Environment = [], svc_LogLevel = ''info'',
           svc_Log = Some \<lparr>addr = 1, threshold = LevelInfo\<rparr>, svc_Name = ''order'',
           svc_Port = 8000, svc_Version = ''test-version''\<rparr>,
      \<lparr>slog_default = \<lparr>addr = 1, threshold = LevelInfo\<rparr>, next_addr = 2\<rparr>) \<and>
   map_option (\<lambda>mux. map (ServeHTTP mux) [''/'', ''/_ready'', ''/_live'', ''/_version'', ''/unknown''])
       (Run \<lparr>svc_Environment = [], svc_LogLevel = ''info'',
             svc_Log = Some \<lparr>addr = 1, threshold = LevelInfo\<rparr>, svc_Name = ''order'',
             svc_Port = 8000, svc_Version = ''test-version''\<rparr> []) =
     Some [\<lparr>status = 200, body = ''order service''\<rparr>,
           \<lparr>status = 200, body = ''order service is ready''\<rparr>,
           \<lparr>status = 200, body = ''order service is alive''\<rparr>,
           \<lparr>status = 200, body = ''test-version''\<rparr>,
           \<lparr>status = 200, body = ''order service''\<rparr>] \<and>
   \<lparr>status = 200, body = ''order service''\<rparr> \<noteq> NotFound"
  by (simp add: NewWithName_eq WithVersion_def numeral_2_eq_2 Run_def HandleFunc_def
      ServeHTTP_def ServeMux_match_def NotFound_def)

end
